theory Spec2Isabelle
  imports Main "HOL-Library.Word"
begin

unbundle bit_operations_syntax

section \<open>Library functions the initializer calls\<close>

subsection \<open>MD5, as computed by \<^verbatim>\<open>createHash('md5').update(s).digest('hex')\<close>\<close>

text \<open>
  The digest of RFC 1321 over the bytes of the string, printed as 32 lowercase
  hexadecimal digits.  A \<^typ>\<open>string\<close> stands for the UTF-8 bytes of the JavaScript
  string, which is what \<^verbatim>\<open>update\<close> hashes.
\<close>

type_synonym word32 = "32 word"
type_synonym byte = "8 word"
type_synonym md5_state = "word32 \<times> word32 \<times> word32 \<times> word32"

definition md5_K :: "word32 list" where
  "md5_K = [
   0xd76aa478, 0xe8c7b756, 0x242070db, 0xc1bdceee,
   0xf57c0faf, 0x4787c62a, 0xa8304613, 0xfd469501,
   0x698098d8, 0x8b44f7af, 0xffff5bb1, 0x895cd7be,
   0x6b901122, 0xfd987193, 0xa679438e, 0x49b40821,
   0xf61e2562, 0xc040b340, 0x265e5a51, 0xe9b6c7aa,
   0xd62f105d, 0x02441453, 0xd8a1e681, 0xe7d3fbc8,
   0x21e1cde6, 0xc33707d6, 0xf4d50d87, 0x455a14ed,
   0xa9e3e905, 0xfcefa3f8, 0x676f02d9, 0x8d2a4c8a,
   0xfffa3942, 0x8771f681, 0x6d9d6122, 0xfde5380c,
   0xa4beea44, 0x4bdecfa9, 0xf6bb4b60, 0xbebfbc70,
   0x289b7ec6, 0xeaa127fa, 0xd4ef3085, 0x04881d05,
   0xd9d4d039, 0xe6db99e5, 0x1fa27cf8, 0xc4ac5665,
   0xf4292244, 0x432aff97, 0xab9423a7, 0xfc93a039,
   0x655b59c3, 0x8f0ccc92, 0xffeff47d, 0x85845dd1,
   0x6fa87e4f, 0xfe2ce6e0, 0xa3014314, 0x4e0811a1,
   0xf7537e82, 0xbd3af235, 0x2ad7d2bb, 0xeb86d391]"

definition md5_S :: "nat list" where
  "md5_S = [
   7, 12, 17, 22, 7, 12, 17, 22, 7, 12, 17, 22, 7, 12, 17, 22,
   5, 9, 14, 20, 5, 9, 14, 20, 5, 9, 14, 20, 5, 9, 14, 20,
   4, 11, 16, 23, 4, 11, 16, 23, 4, 11, 16, 23, 4, 11, 16, 23,
   6, 10, 15, 21, 6, 10, 15, 21, 6, 10, 15, 21, 6, 10, 15, 21]"

definition rotl32 :: "word32 \<Rightarrow> nat \<Rightarrow> word32" where
  "rotl32 x n = push_bit n x OR drop_bit (32 - n) x"

definition md5_F :: "nat \<Rightarrow> word32 \<Rightarrow> word32 \<Rightarrow> word32 \<Rightarrow> word32" where
  "md5_F i b c d =
     (if i < 16 then (b AND c) OR (NOT b AND d)
      else if i < 32 then (d AND b) OR (NOT d AND c)
      else if i < 48 then b XOR c XOR d
      else c XOR (b OR NOT d))"

definition md5_g :: "nat \<Rightarrow> nat" where
  "md5_g i =
     (if i < 16 then i
      else if i < 32 then (5 * i + 1) mod 16
      else if i < 48 then (3 * i + 5) mod 16
      else (7 * i) mod 16)"

fun md5_step :: "word32 list \<Rightarrow> md5_state \<Rightarrow> nat \<Rightarrow> md5_state" where
  "md5_step M (a, b, c, d) i =
     (let f = md5_F i b c d + a + md5_K ! i + M ! md5_g i
      in (d, b + rotl32 f (md5_S ! i), b, c))"

fun md5_add :: "md5_state \<Rightarrow> md5_state \<Rightarrow> md5_state" where
  "md5_add (a0, b0, c0, d0) (a, b, c, d) = (a0 + a, b0 + b, c0 + c, d0 + d)"

definition md5_block :: "md5_state \<Rightarrow> word32 list \<Rightarrow> md5_state" where
  "md5_block st M = md5_add st (foldl (md5_step M) st [0..<64])"

fun le_word32s :: "byte list \<Rightarrow> word32 list" where
  "le_word32s (b0 # b1 # b2 # b3 # bs) =
     (ucast b0 OR push_bit 8 (ucast b1) OR push_bit 16 (ucast b2) OR push_bit 24 (ucast b3))
       # le_word32s bs"
| "le_word32s _ = []"

definition word64_bytes :: "64 word \<Rightarrow> byte list" where
  "word64_bytes w = map (\<lambda>k. ucast (drop_bit (8 * k) w)) [0..<8]"

definition md5_pad :: "byte list \<Rightarrow> byte list" where
  "md5_pad bs =
     bs @ [0x80] @ replicate ((119 - length bs mod 64) mod 64) 0
        @ word64_bytes (8 * of_nat (length bs))"

function md5_blocks :: "md5_state \<Rightarrow> word32 list \<Rightarrow> md5_state" where
  "md5_blocks st ws =
     (if length ws < 16 then st
      else md5_blocks (md5_block st (take 16 ws)) (drop 16 ws))"
  by pat_completeness auto
termination
  by (relation "measure (\<lambda>(st, ws). length ws)") auto

declare md5_blocks.simps [simp del]

definition md5_init :: md5_state where
  "md5_init = (0x67452301, 0xefcdab89, 0x98badcfe, 0x10325476)"

definition word32_bytes :: "word32 \<Rightarrow> byte list" where
  "word32_bytes w = [ucast w, ucast (drop_bit 8 w), ucast (drop_bit 16 w), ucast (drop_bit 24 w)]"

fun md5_output :: "md5_state \<Rightarrow> byte list" where
  "md5_output (a, b, c, d) =
     word32_bytes a @ word32_bytes b @ word32_bytes c @ word32_bytes d"

definition md5 :: "byte list \<Rightarrow> byte list" where
  "md5 bs = md5_output (md5_blocks md5_init (le_word32s (md5_pad bs)))"

definition hex_digit :: "nat \<Rightarrow> char" where
  "hex_digit n = ''0123456789abcdef'' ! n"

definition hex_byte :: "byte \<Rightarrow> string" where
  "hex_byte b = [hex_digit (unat b div 16), hex_digit (unat b mod 16)]"

definition digest_hex :: "byte list \<Rightarrow> string" where
  "digest_hex bs = concat (map hex_byte bs)"

definition md5_hex :: "string \<Rightarrow> string" where
  "md5_hex s = digest_hex (md5 (map of_char s))"

subsection \<open>\<^verbatim>\<open>JSON.stringify\<close> on an object of string properties\<close>

text \<open>
  An object is the list of its own properties in enumeration order, which for the
  keys of a configuration is the order in which they were written.
  \<^verbatim>\<open>JSON.stringify\<close> visits the properties in that order and does not sort them.
  A string is quoted with the escapes of ECMAScript's QuoteJSONString.
\<close>

definition dquote :: char where
  "dquote = CHR 0x22"

definition backslash :: char where
  "backslash = CHR 0x5C"

definition quoteJSONChar :: "char \<Rightarrow> string" where
  "quoteJSONChar c =
     (if c = CHR 0x08 then [backslash, CHR ''b'']
      else if c = CHR 0x09 then [backslash, CHR ''t'']
      else if c = CHR 0x0A then [backslash, CHR ''n'']
      else if c = CHR 0x0C then [backslash, CHR ''f'']
      else if c = CHR 0x0D then [backslash, CHR ''r'']
      else if c = dquote then [backslash, dquote]
      else if c = backslash then [backslash, backslash]
      else if (of_char c :: nat) < 32 then
        [backslash, CHR ''u'', CHR ''0'', CHR ''0'',
         hex_digit (of_char c div 16), hex_digit (of_char c mod 16)]
      else [c])"

definition quoteJSONString :: "string \<Rightarrow> string" where
  "quoteJSONString s = dquote # concat (map quoteJSONChar s) @ [dquote]"

definition serializeProperty :: "string \<times> string \<Rightarrow> string" where
  "serializeProperty p = quoteJSONString (fst p) @ '':'' @ quoteJSONString (snd p)"

fun join_comma :: "string list \<Rightarrow> string" where
  "join_comma [] = []"
| "join_comma [x] = x"
| "join_comma (x # y # ys) = x @ '','' @ join_comma (y # ys)"

definition stringify_object :: "(string \<times> string) list \<Rightarrow> string" where
  "stringify_object ps = ''{'' @ join_comma (map serializeProperty ps) @ ''}''"

section \<open>The resource initializer (class \<^verbatim>\<open>CdkResourceInitializer\<close>)\<close>

subsection \<open>Framework objects, with the fields the constructor sets\<close>

type_synonym IVpc = string

record PolicyStatement =
  actions :: "string list"
  resources :: "string list"

record Role =
  assumedBy :: string
  statements :: "PolicyStatement list"

definition new_Role :: "string \<Rightarrow> Role" where
  "new_Role svc = \<lparr>assumedBy = svc, statements = []\<rparr>"

definition addToPolicy :: "Role \<Rightarrow> PolicyStatement \<Rightarrow> Role" where
  "addToPolicy r st = r\<lparr>statements := statements r @ [st]\<rparr>"

record Stack =
  stackName :: string
  region :: string
  account :: string

record CdkResourceInitializerProps =
  vpc :: IVpc
  policies :: "PolicyStatement list"
  config :: "(string \<times> string) list"

record SecurityGroup =
  securityGroupName :: string
  sg_vpc :: IVpc
  sg_allowAllOutbound :: bool

record LambdaFunction =
  runtime :: string
  memorySize :: nat
  functionName :: string
  code :: string
  handler :: string
  fn_vpc :: IVpc
  securityGroups :: "SecurityGroup list"
  fn_role :: Role
  fn_timeout :: nat
  fn_allowAllOutbound :: bool
  currentVersion :: string

record SdkParameters =
  FunctionName :: string
  Payload :: string

record AwsSdkCall =
  service :: string
  action :: string
  parameters :: SdkParameters
  physicalResourceId :: string

record AwsCustomResource =
  policy :: "string list"
  onCreate :: "AwsSdkCall option"
  onUpdate :: "AwsSdkCall option"
  onDelete :: "AwsSdkCall option"
  cr_timeout :: nat
  cr_role :: Role

datatype deferred = ResponseField string

record CdkResourceInitializer =
  this_response :: deferred
  this_customResource :: AwsCustomResource
  this_function :: LambdaFunction
  this_functionSG :: SecurityGroup

definition Duration_seconds :: "nat \<Rightarrow> nat" where
  "Duration_seconds n = n"

definition Duration_minutes :: "nat \<Rightarrow> nat" where
  "Duration_minutes n = 60 * n"

definition ANY_RESOURCE :: "string list" where
  "ANY_RESOURCE = [''*'']"

definition getResponseField :: "AwsCustomResource \<Rightarrow> string \<Rightarrow> deferred" where
  "getResponseField cr name = ResponseField name"

subsection \<open>The constructor, one definition per local constant\<close>

text \<open>
  \<open>stack\<close> is \<^verbatim>\<open>Stack.of(this)\<close>, \<open>cid\<close> the construct id and \<open>version\<close> the value
  of \<^verbatim>\<open>fn.currentVersion.version\<close>, which the framework supplies.
\<close>

definition fnSg :: "string \<Rightarrow> CdkResourceInitializerProps \<Rightarrow> SecurityGroup" where
  "fnSg cid props =
     \<lparr>securityGroupName = cid @ ''ResourceInitializerFnSg'',
      sg_vpc = vpc props,
      sg_allowAllOutbound = True\<rparr>"

definition logPolicy :: PolicyStatement where
  "logPolicy =
     \<lparr>actions = [''logs:CreateLogGroup'', ''logs:CreateLogStream'', ''logs:PutLogEvents''],
      resources = [''arn:aws:logs:*:*:*'']\<rparr>"

definition vpcAccessPolicyStatement :: PolicyStatement where
  "vpcAccessPolicyStatement =
     \<lparr>actions = [''ec2:CreateNetworkInterface'', ''ec2:DescribeNetworkInterfaces'',
                 ''ec2:DeleteNetworkInterface''],
      resources = [''*'']\<rparr>"

definition role :: "CdkResourceInitializerProps \<Rightarrow> Role" where
  "role props =
     foldl addToPolicy
       (addToPolicy (addToPolicy (new_Role ''lambda.amazonaws.com'') logPolicy)
          vpcAccessPolicyStatement)
       (policies props)"

definition fn :: "Stack \<Rightarrow> string \<Rightarrow> string \<Rightarrow> CdkResourceInitializerProps \<Rightarrow> LambdaFunction" where
  "fn stack cid version props =
     \<lparr>runtime = ''nodejs14.x'',
      memorySize = 128,
      functionName = cid @ ''-ResInit'' @ stackName stack,
      code = ''lambdas/rds-init'',
      handler = ''index.handler'',
      fn_vpc = vpc props,
      securityGroups = [fnSg cid props],
      fn_role = role props,
      fn_timeout = Duration_seconds 30,
      fn_allowAllOutbound = True,
      currentVersion = version\<rparr>"

definition payload :: "CdkResourceInitializerProps \<Rightarrow> string" where
  "payload props =
     ''{'' @ quoteJSONString ''params'' @ '':'' @
       (''{'' @ quoteJSONString ''config'' @ '':'' @ stringify_object (config props) @ ''}'')
     @ ''}''"

definition payloadHashPrefix :: "CdkResourceInitializerProps \<Rightarrow> string" where
  "payloadHashPrefix props = take 6 (md5_hex (payload props))"

definition sdkCall :: "Stack \<Rightarrow> string \<Rightarrow> string \<Rightarrow> CdkResourceInitializerProps \<Rightarrow> AwsSdkCall" where
  "sdkCall stack cid version props =
     \<lparr>service = ''Lambda'',
      action = ''invoke'',
      parameters =
        \<lparr>FunctionName = functionName (fn stack cid version props),
         Payload = payload props\<rparr>,
      physicalResourceId =
        cid @ ''-AwsSdkCall-''
          @ (currentVersion (fn stack cid version props) @ payloadHashPrefix props)\<rparr>"

definition customResourceFnRole :: "Stack \<Rightarrow> Role" where
  "customResourceFnRole stack =
     addToPolicy (new_Role ''lambda.amazonaws.com'')
       \<lparr>actions = [''lambda:InvokeFunction''],
        resources =
          [''arn:aws:lambda:'' @ region stack @ '':'' @ account stack
             @ '':function:*-ResInit'' @ stackName stack]\<rparr>"

definition customResource :: "Stack \<Rightarrow> string \<Rightarrow> string \<Rightarrow> CdkResourceInitializerProps \<Rightarrow> AwsCustomResource" where
  "customResource stack cid version props =
     \<lparr>policy = ANY_RESOURCE,
      onCreate = None,
      onUpdate = Some (sdkCall stack cid version props),
      onDelete = None,
      cr_timeout = Duration_minutes 10,
      cr_role = customResourceFnRole stack\<rparr>"

definition new_CdkResourceInitializer ::
    "Stack \<Rightarrow> string \<Rightarrow> string \<Rightarrow> CdkResourceInitializerProps \<Rightarrow> CdkResourceInitializer" where
  "new_CdkResourceInitializer stack cid version props =
     \<lparr>this_response = getResponseField (customResource stack cid version props) ''Payload'',
      this_customResource = customResource stack cid version props,
      this_function = fn stack cid version props,
      this_functionSG = fnSg cid props\<rparr>"

section \<open>The stack method \<^verbatim>\<open>createServerlessRDS\<close>\<close>

text \<open>
  The stack object is passed and returned: the constructs registered under it so far,
  its field \<^verbatim>\<open>rdsServerlessCluster\<close> and the ingress rules added to the cluster's
  security group.  What the framework's constructors return (the database cluster with
  its optional admin secret, the application secret, the function version) is a
  parameter.  A \<^verbatim>\<open>throw\<close> is the \<open>Inl\<close> result, with the stack as it was left.
\<close>

datatype js_error = ReferenceError string | TypeError string

record Secret =
  secretName :: string
  secretArn :: string

record ServerlessCluster =
  cluster_secret :: "Secret option"
  clusterArn :: string

datatype construct =
    ParameterGroupConstruct
  | ServerlessClusterConstruct ServerlessCluster
  | SecretConstruct Secret
  | InitializerConstruct CdkResourceInitializer

record RdsServerlessCluster =
  rdsPolicyStatement :: PolicyStatement
  cluster :: ServerlessCluster
  appSecret :: Secret

record ExampleFargateStack =
  stack_of :: Stack
  children :: "(string \<times> construct) list"
  rdsServerlessCluster :: "RdsServerlessCluster option"
  rds_ingress :: "(SecurityGroup \<times> nat) list"

record Framework =
  new_ServerlessCluster :: ServerlessCluster
  new_Secret :: Secret
  fn_version :: string

definition addChild :: "ExampleFargateStack \<Rightarrow> string \<Rightarrow> construct \<Rightarrow> ExampleFargateStack" where
  "addChild this cid c = this\<lparr>children := children this @ [(cid, c)]\<rparr>"

definition addIngreesRuleToRDS ::
    "ExampleFargateStack \<Rightarrow> SecurityGroup \<Rightarrow> js_error + ExampleFargateStack" where
  "addIngreesRuleToRDS this securityGroup =
     (case rdsServerlessCluster this of
        None \<Rightarrow> Inl (TypeError ''rdsServerlessCluster is undefined'')
      | Some _ \<Rightarrow> Inr (this\<lparr>rds_ingress := rds_ingress this @ [(securityGroup, 5432)]\<rparr>))"

definition createServerlessRDS ::
    "Framework \<Rightarrow> ExampleFargateStack \<Rightarrow> IVpc \<Rightarrow> (js_error + unit) \<times> ExampleFargateStack" where
  "createServerlessRDS fw this v =
     (let rdsCluster = new_ServerlessCluster fw;
          this1 = addChild (addChild this ''default'' ParameterGroupConstruct)
                    ''Database'' (ServerlessClusterConstruct rdsCluster)
      in case cluster_secret rdsCluster of
           None \<Rightarrow> (Inl (ReferenceError ''rdsAdminSecret is undefined''), this1)
         | Some rdsAdminSecret \<Rightarrow>
            (let adminDBPolicy =
                   \<lparr>actions = [''secretsmanager:GetSecretValue''],
                    resources = [secretArn rdsAdminSecret]\<rparr>;
                 rdsAppSecret = new_Secret fw;
                 this2 = addChild this1 ''rdsAppCredentials'' (SecretConstruct rdsAppSecret);
                 appDBPolicy =
                   \<lparr>actions = [''secretsmanager:GetSecretValue'',
                               ''secretsmanager:PutSecretValue''],
                    resources = [secretArn rdsAppSecret]\<rparr>;
                 rds = \<lparr>rdsPolicyStatement =
                          \<lparr>actions = [''rds:*''], resources = [clusterArn rdsCluster]\<rparr>,
                        cluster = rdsCluster,
                        appSecret = rdsAppSecret\<rparr>;
                 this3 = this2\<lparr>rdsServerlessCluster := Some rds\<rparr>;
                 initializer =
                   new_CdkResourceInitializer (stack_of this3) ''Initializer'' (fn_version fw)
                     \<lparr>vpc = v,
                      policies = [appDBPolicy, adminDBPolicy, rdsPolicyStatement rds],
                      config = [(''credsSecretName'', secretName rdsAdminSecret),
                                (''dbSecretName'', secretName rdsAppSecret)]\<rparr>;
                 this4 = addChild this3 ''Initializer'' (InitializerConstruct initializer)
             in case addIngreesRuleToRDS this4 (this_functionSG initializer) of
                  Inl e \<Rightarrow> (Inl e, this4)
                | Inr this5 \<Rightarrow> (Inr (), this5)))"

fun initializers :: "(string \<times> construct) list \<Rightarrow> CdkResourceInitializer list" where
  "initializers [] = []"
| "initializers ((cid, InitializerConstruct i) # cs) = i # initializers cs"
| "initializers (_ # cs) = initializers cs"

section \<open>The convergence engine\<close>

text \<open>
  Modelled from the spec: the declarative engine that runs the custom resource is not
  among the repository's sources.  The state of the Lifecycle Trigger (section 4.2):
  its status, the last recorded Physical Identity, the retained Invocation Result, the
  invocations issued to the Action Target so far (function name and payload) and the
  error surfaced by the last pass.
\<close>

datatype trigger_status = Absent | Pending | Applied | Failed | Removed

datatype invocation_error = InvocationError string | TimeoutError

type_synonym invocation_result = "(string \<times> string) list"

type_synonym action_target = "string \<Rightarrow> string \<Rightarrow> invocation_error + invocation_result"

record trigger_state =
  status :: trigger_status
  recorded :: "string option"
  invocation_result :: "invocation_result option"
  invocations :: "(string \<times> string) list"
  surfaced :: "invocation_error option"


text \<open>
  Modelled from the spec: the hook "on create or update" (section 6), which the engine
  is missing from the sources for.  A pass with no recorded identity is a create, served
  by \<open>onCreate\<close> or, when the resource declares none, by \<open>onUpdate\<close>; a later pass is an
  update.
\<close>

definition create_or_update_call :: "AwsCustomResource \<Rightarrow> trigger_state \<Rightarrow> AwsSdkCall option" where
  "create_or_update_call cr s =
     (if recorded s = None
      then (case onCreate cr of Some c \<Rightarrow> Some c | None \<Rightarrow> onUpdate cr)
      else onUpdate cr)"

text \<open>
  Modelled from the spec: the engine's synchronous invocation (sections 4.2 and 5), not
  in the sources.  The trigger goes to Pending and the call is issued; on success it
  becomes Applied with the new Physical Identity and Invocation Result, on an error or
  a timeout it becomes Failed and the error is surfaced.
\<close>

definition begin_invocation :: "AwsSdkCall \<Rightarrow> trigger_state \<Rightarrow> trigger_state" where
  "begin_invocation call s =
     s\<lparr>status := Pending,
       invocations := invocations s
          @ [(FunctionName (parameters call), Payload (parameters call))]\<rparr>"

definition finish_invocation ::
    "AwsSdkCall \<Rightarrow> invocation_error + invocation_result \<Rightarrow> trigger_state \<Rightarrow> trigger_state" where
  "finish_invocation call outcome s =
     (case outcome of
        Inr r \<Rightarrow>
          s\<lparr>status := Applied, recorded := Some (physicalResourceId call),
            invocation_result := Some r, surfaced := None\<rparr>
      | Inl e \<Rightarrow> s\<lparr>status := Failed, surfaced := Some e\<rparr>)"

definition invoke :: "action_target \<Rightarrow> AwsSdkCall \<Rightarrow> trigger_state \<Rightarrow> trigger_state" where
  "invoke target call s =
     finish_invocation call
       (target (FunctionName (parameters call)) (Payload (parameters call)))
       (begin_invocation call s)"

text \<open>
  Modelled from the spec: the transition rule of section 4.2, run by the engine that is
  not in the sources.  The candidate Physical Identity is the one the resource declares;
  the Action Target is invoked only when it differs from the recorded one, from Absent,
  Applied or Failed.
\<close>

definition convergence_pass ::
    "action_target \<Rightarrow> AwsCustomResource \<Rightarrow> trigger_state \<Rightarrow> trigger_state" where
  "convergence_pass target cr s =
     (if status s = Removed \<or> status s = Pending then s
      else case create_or_update_call cr s of
             None \<Rightarrow> s
           | Some call \<Rightarrow>
               if recorded s = Some (physicalResourceId call) then s
               else invoke target call s)"

text \<open>
  Modelled from the spec: the hook "on delete" (sections 4.2 and 6) of the engine that
  is not in the sources.  The resource's delete call, if it declares one, is issued;
  the trigger ends Removed.
\<close>

definition delete_event ::
    "action_target \<Rightarrow> AwsCustomResource \<Rightarrow> trigger_state \<Rightarrow> trigger_state" where
  "delete_event target cr s =
     (case onDelete cr of
        None \<Rightarrow> s\<lparr>status := Removed\<rparr>
      | Some call \<Rightarrow> (invoke target call s)\<lparr>status := Removed\<rparr>)"

text \<open>
  Modelled from the spec: the Result Publisher of section 4.3, the engine's resolution of
  the deferred value \<^verbatim>\<open>getResponseField\<close> returns, not in the sources.  A field of the
  Invocation Result resolves only while the trigger is Applied.
\<close>

datatype resolve_error = NotApplied trigger_status | NoSuchField string

definition resolve :: "trigger_state \<Rightarrow> deferred \<Rightarrow> resolve_error + string" where
  "resolve s d =
     (case d of ResponseField name \<Rightarrow>
        if status s = Applied then
          (case invocation_result s of
             None \<Rightarrow> Inl (NoSuchField name)
           | Some r \<Rightarrow>
               (case map_of r name of
                  None \<Rightarrow> Inl (NoSuchField name)
                | Some v \<Rightarrow> Inr v))
        else Inl (NotApplied (status s)))"

section \<open>Resource patterns of a permission grant\<close>

text \<open>
  The ARN of the function called \<open>name\<close> in the stack's region and account, as line 111
  of the initializer spells it, and the matching rule of a grant's resource pattern:
  \<open>*\<close> stands for any run of characters and \<open>?\<close> for any single one.
\<close>

definition functionArn :: "Stack \<Rightarrow> string \<Rightarrow> string" where
  "functionArn stack name =
     ''arn:aws:lambda:'' @ region stack @ '':'' @ account stack @ '':function:'' @ name"

fun wildcard_match :: "string \<Rightarrow> string \<Rightarrow> bool" where
  "wildcard_match [] s = (s = [])"
| "wildcard_match (p # ps) [] = (p = CHR ''*'' \<and> wildcard_match ps [])"
| "wildcard_match (p # ps) (c # cs) =
     (if p = CHR ''*'' then wildcard_match ps (c # cs) \<or> wildcard_match (p # ps) cs
      else (p = CHR ''?'' \<or> p = c) \<and> wildcard_match ps cs)"

section \<open>The execution role's policy\<close>

lemma statements_addToPolicy: "statements (addToPolicy r st) = statements r @ [st]"
  by (simp add: addToPolicy_def)

lemma statements_foldl_addToPolicy:
  "statements (foldl addToPolicy r ps) = statements r @ ps"
  by (induction ps arbitrary: r) (simp_all add: statements_addToPolicy)

text \<open>
  C7.  The ordered policy set of the Action Target's execution role is the baseline,
  the logging grant and then the network-interface grant, followed by exactly the
  caller's grants in the order given, with nothing else.
\<close>

theorem C7_execution_role_policy:
  "statements (fn_role (this_function (new_CdkResourceInitializer stack cid version props)))
     = [logPolicy, vpcAccessPolicyStatement] @ policies props"
  by (simp add: new_CdkResourceInitializer_def fn_def role_def new_Role_def
      statements_foldl_addToPolicy statements_addToPolicy)

section \<open>The fingerprint and the Physical Identity\<close>

subsection \<open>Shape of the digest\<close>

lemma length_word32_bytes: "length (word32_bytes w) = 4"
  by (simp add: word32_bytes_def)

lemma length_md5: "length (md5 bs) = 16"
proof -
  obtain a b c d where "md5_blocks md5_init (le_word32s (md5_pad bs)) = (a, b, c, d)"
    by (cases "md5_blocks md5_init (le_word32s (md5_pad bs))") auto
  then show ?thesis by (simp add: md5_def length_word32_bytes)
qed

lemma length_digest_hex: "length (digest_hex bs) = 2 * length bs"
  by (induction bs) (simp_all add: digest_hex_def hex_byte_def)

lemma length_md5_hex: "length (md5_hex s) = 32"
  by (simp add: md5_hex_def length_digest_hex length_md5)

lemma hex_digit_in_alphabet:
  assumes "n < 16"
  shows "hex_digit n \<in> set ''0123456789abcdef''"
proof -
  have "length ''0123456789abcdef'' = 16" by simp
  with assms have "''0123456789abcdef'' ! n \<in> set ''0123456789abcdef''"
    by (intro nth_mem) simp
  then show ?thesis by (simp only: hex_digit_def)
qed

lemma set_hex_byte: "set (hex_byte b) \<subseteq> set ''0123456789abcdef''"
proof -
  have "unat b < 256" using unsigned_less [of b] by simp
  then have "unat b div 16 < 16" by simp
  then have hi: "hex_digit (unat b div 16) \<in> set ''0123456789abcdef''"
    by (rule hex_digit_in_alphabet)
  have "unat b mod 16 < 16" by simp
  then have lo: "hex_digit (unat b mod 16) \<in> set ''0123456789abcdef''"
    by (rule hex_digit_in_alphabet)
  have "set (hex_byte b) = {hex_digit (unat b div 16), hex_digit (unat b mod 16)}"
    by (simp add: hex_byte_def)
  with hi lo show ?thesis by (simp only: insert_subset empty_subsetI simp_thms)
qed

lemma set_digest_hex: "set (digest_hex bs) \<subseteq> set ''0123456789abcdef''"
  using set_hex_byte by (auto simp add: digest_hex_def simp del: set_simps)

lemma length_payloadHashPrefix: "length (payloadHashPrefix props) = 6"
  by (simp add: payloadHashPrefix_def length_md5_hex)

lemma set_payloadHashPrefix: "set (payloadHashPrefix props) \<subseteq> set ''0123456789abcdef''"
proof -
  have "set (take 6 (md5_hex (payload props))) \<subseteq> set (md5_hex (payload props))"
    by (rule set_take_subset)
  also have "\<dots> \<subseteq> set ''0123456789abcdef''"
    unfolding md5_hex_def by (rule set_digest_hex)
  finally show ?thesis by (simp only: payloadHashPrefix_def)
qed

lemma physicalResourceId_sdkCall:
  "physicalResourceId (sdkCall stack cid version props)
     = cid @ ''-AwsSdkCall-'' @ version @ payloadHashPrefix props"
  by (simp add: sdkCall_def fn_def)

lemma physicalResourceId_eq_iff:
  "physicalResourceId (sdkCall stack1 cid v1 p1) = physicalResourceId (sdkCall stack2 cid v2 p2)
     \<longleftrightarrow> v1 = v2 \<and> payloadHashPrefix p1 = payloadHashPrefix p2"
proof -
  have "length (payloadHashPrefix p1) = length (payloadHashPrefix p2)"
    by (simp add: length_payloadHashPrefix)
  then have "v1 @ payloadHashPrefix p1 = v2 @ payloadHashPrefix p2
               \<longleftrightarrow> v1 = v2 \<and> payloadHashPrefix p1 = payloadHashPrefix p2"
    by (rule append_eq_append_conv [OF disjI2])
  then show ?thesis by (simp add: physicalResourceId_sdkCall)
qed

subsection \<open>The serialized payload determines the configuration\<close>

lemma hex_digit_inj:
  assumes "hex_digit a = hex_digit b" "a < 16" "b < 16"
  shows "a = b"
proof -
  have d: "distinct ''0123456789abcdef''" by simp
  have l: "length ''0123456789abcdef'' = 16" by simp
  from assms(1) have "''0123456789abcdef'' ! a = ''0123456789abcdef'' ! b"
    by (simp only: hex_digit_def)
  with nth_eq_iff_index_eq [OF d, of a b] assms(2,3) l show ?thesis
    by simp
qed

lemma unicode_escape_inj:
  assumes "(of_char c :: nat) < 32" "(of_char d :: nat) < 32"
      and "hex_digit (of_char c div 16) = hex_digit (of_char d div 16)"
      and "hex_digit (of_char c mod 16) = hex_digit (of_char d mod 16)"
  shows "c = d"
proof -
  have "(of_char c :: nat) div 16 < 16" "(of_char d :: nat) div 16 < 16"
    using assms(1,2) by simp_all
  with assms(3) have hi: "(of_char c :: nat) div 16 = of_char d div 16"
    by (rule hex_digit_inj)
  have "(of_char c :: nat) mod 16 < 16" "(of_char d :: nat) mod 16 < 16"
    by simp_all
  with assms(4) have lo: "(of_char c :: nat) mod 16 = of_char d mod 16"
    by (rule hex_digit_inj)
  have "(of_char c :: nat) = of_char d"
    using hi lo by (metis div_mult_mod_eq)
  then show ?thesis by simp
qed

lemma quoteJSONChar_prefix_code:
  assumes "quoteJSONChar c @ X = quoteJSONChar d @ Y"
  shows "c = d \<and> X = Y"
  using assms
  by (auto simp: quoteJSONChar_def dquote_def backslash_def
      split: if_splits intro: unicode_escape_inj)

lemma quoteJSONChar_not_dquote: "quoteJSONChar c @ X \<noteq> dquote # Y"
  by (auto simp: quoteJSONChar_def dquote_def backslash_def)

lemma escaped_prefix_free:
  "concat (map quoteJSONChar s) @ dquote # r = concat (map quoteJSONChar t) @ dquote # r'
     \<Longrightarrow> s = t \<and> r = r'"
proof (induction s arbitrary: t)
  case Nil
  show ?case
  proof (cases t)
    case Nil
    with Nil.prems show ?thesis by simp
  next
    case (Cons d ds)
    with Nil.prems have "quoteJSONChar d @ (concat (map quoteJSONChar ds) @ dquote # r') = dquote # r"
      by simp
    then show ?thesis using quoteJSONChar_not_dquote by blast
  qed
next
  case (Cons c cs)
  show ?case
  proof (cases t)
    case Nil
    with Cons.prems have "quoteJSONChar c @ (concat (map quoteJSONChar cs) @ dquote # r) = dquote # r'"
      by simp
    then show ?thesis using quoteJSONChar_not_dquote by blast
  next
    case (Cons d ds)
    with Cons.prems have
      "quoteJSONChar c @ (concat (map quoteJSONChar cs) @ dquote # r)
         = quoteJSONChar d @ (concat (map quoteJSONChar ds) @ dquote # r')"
      by simp
    then have "c = d" and
      rest: "concat (map quoteJSONChar cs) @ dquote # r = concat (map quoteJSONChar ds) @ dquote # r'"
      using quoteJSONChar_prefix_code by blast+
    from Cons.IH [OF rest] \<open>c = d\<close> Cons show ?thesis by simp
  qed
qed

lemma quoteJSONString_prefix_free:
  assumes "quoteJSONString s @ r = quoteJSONString t @ r'"
  shows "s = t \<and> r = r'"
  using assms escaped_prefix_free [of s r t r'] by (simp add: quoteJSONString_def)

lemma serializeProperty_prefix_free:
  assumes "serializeProperty p @ r = serializeProperty q @ r'"
  shows "p = q \<and> r = r'"
proof -
  from assms have
    "quoteJSONString (fst p) @ (CHR '':'' # quoteJSONString (snd p) @ r)
       = quoteJSONString (fst q) @ (CHR '':'' # quoteJSONString (snd q) @ r')"
    by (simp add: serializeProperty_def)
  then have k: "fst p = fst q"
    and "CHR '':'' # quoteJSONString (snd p) @ r = CHR '':'' # quoteJSONString (snd q) @ r'"
    using quoteJSONString_prefix_free by blast+
  then have "quoteJSONString (snd p) @ r = quoteJSONString (snd q) @ r'" by simp
  then have "snd p = snd q" and "r = r'"
    using quoteJSONString_prefix_free by blast+
  with k show ?thesis by (simp add: prod_eq_iff)
qed

lemma serializeProperty_starts: "\<exists>rest. serializeProperty p = dquote # rest"
  by (simp add: serializeProperty_def quoteJSONString_def)

lemma join_comma_Cons:
  "join_comma (x # xs) = x @ (if xs = [] then [] else '','' @ join_comma xs)"
  by (cases xs) simp_all

lemma members_prefix_free:
  "join_comma (map serializeProperty ps) @ CHR ''}'' # r
     = join_comma (map serializeProperty qs) @ CHR ''}'' # r'
   \<Longrightarrow> ps = qs \<and> r = r'"
proof (induction ps arbitrary: qs)
  case Nil
  show ?case
  proof (cases qs)
    case Nil
    with Nil.prems show ?thesis by simp
  next
    case (Cons q qs')
    obtain rest where "serializeProperty q = dquote # rest"
      using serializeProperty_starts by blast
    with Nil.prems Cons show ?thesis
      by (simp add: join_comma_Cons dquote_def)
  qed
next
  case (Cons p ps)
  show ?case
  proof (cases qs)
    case Nil
    obtain rest where "serializeProperty p = dquote # rest"
      using serializeProperty_starts by blast
    with Cons.prems Nil show ?thesis
      by (simp add: join_comma_Cons dquote_def)
  next
    case (Cons q qs')
    let ?tl = "\<lambda>xs r. (if map serializeProperty xs = [] then []
                        else '','' @ join_comma (map serializeProperty xs)) @ CHR ''}'' # r"
    from Cons.prems Cons have
      "serializeProperty p @ ?tl ps r = serializeProperty q @ ?tl qs' r'"
      by (simp add: join_comma_Cons)
    then have "p = q" and tails: "?tl ps r = ?tl qs' r'"
      using serializeProperty_prefix_free by blast+
    have "ps = qs' \<and> r = r'"
    proof (cases "ps = []")
      case True
      with tails show ?thesis by (cases "qs' = []") simp_all
    next
      case False
      with tails have "qs' \<noteq> []" by (cases "qs' = []") simp_all
      with tails False have
        "join_comma (map serializeProperty ps) @ CHR ''}'' # r
           = join_comma (map serializeProperty qs') @ CHR ''}'' # r'"
        by simp
      then show ?thesis by (rule Cons.IH)
    qed
    with \<open>p = q\<close> Cons show ?thesis by simp
  qed
qed

lemma stringify_object_inj:
  "stringify_object ps = stringify_object qs \<longleftrightarrow> ps = qs"
  using members_prefix_free [of ps "[]" qs "[]"]
  by (auto simp add: stringify_object_def)

lemma payload_inj: "payload p1 = payload p2 \<longleftrightarrow> config p1 = config p2"
  by (simp add: payload_def stringify_object_inj)

subsection \<open>Fingerprints of concrete payloads\<close>

text \<open>
  The digest on two strings of the test suite of RFC 1321, the payload of the spec's
  first scenario as text, and the fingerprints of the payloads of the scenarios: the payload
  \<open>{credsSecretName: a, dbSecretName: b}\<close>, the same with its keys written in the other
  order, the same with \<open>dbSecretName\<close> changed to \<open>c\<close>, and one with \<open>dbSecretName\<close>
  changed to \<open>ajxlaz\<close>.
\<close>

lemma md5_test_suite:
  "md5_hex [] = ''d41d8cd98f00b204e9800998ecf8427e''"
  "md5_hex ''abc'' = ''900150983cd24fb0d6963f7d28e17f72''"
  by code_simp+

lemma payload_scenario:
  "payload \<lparr>vpc = [], policies = [],
            config = [(''credsSecretName'', ''a''), (''dbSecretName'', ''b'')]\<rparr>
     = ''{'' @ [dquote] @ ''params'' @ [dquote] @ '':{'' @ [dquote] @ ''config'' @ [dquote] @ '':{''
       @ [dquote] @ ''credsSecretName'' @ [dquote] @ '':'' @ [dquote] @ ''a'' @ [dquote] @ '',''
       @ [dquote] @ ''dbSecretName'' @ [dquote] @ '':'' @ [dquote] @ ''b'' @ [dquote] @ ''}}}''"
  by code_simp

lemma fp_ab:
  "payloadHashPrefix \<lparr>vpc = [], policies = [], config = [(''credsSecretName'', ''a''), (''dbSecretName'', ''b'')]\<rparr> = ''1d759c''"
  by code_simp

lemma fp_ba:
  "payloadHashPrefix \<lparr>vpc = [], policies = [], config = [(''dbSecretName'', ''b''), (''credsSecretName'', ''a'')]\<rparr> = ''445dc3''"
  by code_simp

lemma fp_ac:
  "payloadHashPrefix \<lparr>vpc = [], policies = [], config = [(''credsSecretName'', ''a''), (''dbSecretName'', ''c'')]\<rparr> = ''270dce''"
  by code_simp

lemma fp_collision:
  "payloadHashPrefix \<lparr>vpc = [], policies = [], config = [(''credsSecretName'', ''a''), (''dbSecretName'', ''ajxlaz'')]\<rparr> = ''1d759c''"
  by code_simp

section \<open>Passes of the engine over the initializer's custom resource\<close>

lemma call_of_customResource:
  "create_or_update_call (customResource stack cid version props) s
     = Some (sdkCall stack cid version props)"
  by (simp add: create_or_update_call_def customResource_def)

lemma sdkCall_parameters:
  "FunctionName (parameters (sdkCall stack cid version props)) = cid @ ''-ResInit'' @ stackName stack"
  "Payload (parameters (sdkCall stack cid version props)) = payload props"
  by (simp_all add: sdkCall_def fn_def)

lemma pass_invokes:
  assumes "status s \<noteq> Removed" "status s \<noteq> Pending"
      and "recorded s \<noteq> Some (physicalResourceId (sdkCall stack cid version props))"
  shows "convergence_pass target (customResource stack cid version props) s
           = invoke target (sdkCall stack cid version props) s"
  using assms by (simp add: convergence_pass_def call_of_customResource)


lemma invocations_invoke:
  "invocations (invoke target call s)
     = invocations s @ [(FunctionName (parameters call), Payload (parameters call))]"
  by (simp add: invoke_def finish_invocation_def begin_invocation_def split: sum.splits)


lemma invoke_failure:
  assumes "target (FunctionName (parameters call)) (Payload (parameters call)) = Inl e"
  shows "status (invoke target call s) = Failed"
    and "recorded (invoke target call s) = recorded s"
    and "invocation_result (invoke target call s) = invocation_result s"
    and "surfaced (invoke target call s) = Some e"
  using assms by (simp_all add: invoke_def finish_invocation_def begin_invocation_def)




text \<open>
  C5.  A delete event never invokes the Action Target.  The custom resource declares its
  call for create and update only (\<open>onUpdate\<close> is set, \<open>onDelete\<close> is absent), so in
  every state the delete event leaves the invocations as they were and ends Removed, and
  no later pass invokes.
\<close>

theorem C5_delete_never_invokes:
  "onUpdate (customResource stack cid version props) = Some (sdkCall stack cid version props)
   \<and> onDelete (customResource stack cid version props) = None
   \<and> invocations (delete_event target (customResource stack cid version props) s)
        = invocations s
   \<and> status (delete_event target (customResource stack cid version props) s) = Removed
   \<and> convergence_pass target2 (customResource stack cid version props)
         (delete_event target (customResource stack cid version props) s)
        = delete_event target (customResource stack cid version props) s"
proof -
  have none: "onDelete (customResource stack cid version props) = None"
    by (simp add: customResource_def)
  have del: "delete_event target (customResource stack cid version props) s
               = s\<lparr>status := Removed\<rparr>"
    by (simp add: delete_event_def none)
  have upd: "onUpdate (customResource stack cid version props)
               = Some (sdkCall stack cid version props)"
    by (simp add: customResource_def)
  show ?thesis
    unfolding del by (simp add: none upd convergence_pass_def)
qed

text \<open>
  C8.  When the Action Target reports an error or times out, the trigger is Failed, the
  error is surfaced, and resolving the published response field, or any other deferred
  value, fails with an error; the Invocation Result retained from an earlier pass is
  never returned.
\<close>

theorem C8_failed_never_resolves:
  assumes "status s = Absent \<or> status s = Applied \<or> status s = Failed"
      and "recorded s \<noteq> Some (physicalResourceId (sdkCall stack cid version props))"
      and "target (cid @ ''-ResInit'' @ stackName stack) (payload props) = Inl e"
  shows "let s1 = convergence_pass target (customResource stack cid version props) s
         in status s1 = Failed
            \<and> surfaced s1 = Some e
            \<and> invocation_result s1 = invocation_result s
            \<and> resolve s1 (this_response (new_CdkResourceInitializer stack cid version props))
                 = Inl (NotApplied Failed)
            \<and> (\<forall>d. resolve s1 d = Inl (NotApplied Failed))"
proof -
  let ?call = "sdkCall stack cid version props"
  from assms(1) have live: "status s \<noteq> Removed" "status s \<noteq> Pending" by auto
  have first: "convergence_pass target (customResource stack cid version props) s
                 = invoke target ?call s"
    using live assms(2) by (rule pass_invokes)
  have bad: "target (FunctionName (parameters ?call)) (Payload (parameters ?call)) = Inl e"
    using assms(3) by (simp add: sdkCall_parameters)
  have st: "status (invoke target ?call s) = Failed"
    using invoke_failure(1) [of target ?call e s, OF bad] .
  have res: "resolve (invoke target ?call s) d = Inl (NotApplied Failed)" for d
    by (cases d) (simp add: resolve_def st)
  show ?thesis
    unfolding Let_def first
    using st res invoke_failure(3,4) [of target ?call e s, OF bad] by simp
qed


theorem C8_failed_never_resolves_witness:
  "resolve
     (convergence_pass (\<lambda>f p. Inl TimeoutError)
        (customResource \<lparr>stackName = ''S'', region = ''r'', account = ''1''\<rparr> ''Initializer'' ''2''
           \<lparr>vpc = ''v'', policies = [],
            config = [(''credsSecretName'', ''a''), (''dbSecretName'', ''b'')]\<rparr>)
        \<lparr>status = Applied, recorded = Some ''old'',
         invocation_result = Some [(''Payload'', ''stale'')],
         invocations = [], surfaced = None\<rparr>)
     (ResponseField ''Payload'')
   = Inl (NotApplied Failed)"
proof -
  let ?s = "\<lparr>status = Applied, recorded = Some ''old'',
             invocation_result = Some [(''Payload'', ''stale'')],
             invocations = [], surfaced = None\<rparr>"
  let ?stack = "\<lparr>stackName = ''S'', region = ''r'', account = ''1''\<rparr>"
  let ?props = "\<lparr>vpc = ''v'', policies = [],
                 config = [(''credsSecretName'', ''a''), (''dbSecretName'', ''b'')]\<rparr>"
  have h1: "status ?s = Absent \<or> status ?s = Applied \<or> status ?s = Failed"
    by simp
  have h2: "recorded ?s \<noteq> Some (physicalResourceId (sdkCall ?stack ''Initializer'' ''2'' ?props))"
    by (simp add: physicalResourceId_sdkCall)
  have h3: "(\<lambda>f p. Inl TimeoutError) (''Initializer'' @ ''-ResInit'' @ stackName ?stack) (payload ?props)
              = (Inl TimeoutError :: invocation_error + invocation_result)"
    by simp
  note w = C8_failed_never_resolves [OF h1 h2 h3, unfolded Let_def]
  from w have "\<forall>d. resolve
     (convergence_pass (\<lambda>f p. Inl TimeoutError)
        (customResource ?stack ''Initializer'' ''2'' ?props) ?s) d
       = Inl (NotApplied Failed)"
    by (rule conjunct2 [THEN conjunct2, THEN conjunct2, THEN conjunct2])
  then show ?thesis by (rule spec)
qed

section \<open>Construction of the database and its initializer\<close>

lemma initializers_append:
  "initializers (xs @ ys) = initializers xs @ initializers ys"
  by (induction xs rule: initializers.induct) simp_all

lemma children_addChild: "children (addChild this cid c) = children this @ [(cid, c)]"
  by (simp add: addChild_def)

lemma rdsServerlessCluster_addChild:
  "rdsServerlessCluster (addChild this cid c) = rdsServerlessCluster this"
  by (simp add: addChild_def)

lemma createServerlessRDS_creates_initializer:
  assumes "cluster_secret (new_ServerlessCluster fw) = Some adm"
  shows "fst (createServerlessRDS fw this v) = Inr ()"
    and "map fst (children (snd (createServerlessRDS fw this v)))
           = map fst (children this) @ [''default'', ''Database'', ''rdsAppCredentials'', ''Initializer'']"
    and "\<exists>i. initializers (children (snd (createServerlessRDS fw this v)))
           = initializers (children this) @ [i]
           \<and> Payload (parameters (the (onUpdate (this_customResource i))))
               = payload \<lparr>vpc = v, policies = [],
                   config = [(''credsSecretName'', secretName adm),
                             (''dbSecretName'', secretName (new_Secret fw))]\<rparr>"
  using assms
  by (simp_all add: createServerlessRDS_def Let_def children_addChild initializers_append
      addIngreesRuleToRDS_def rdsServerlessCluster_addChild addChild_def
      new_CdkResourceInitializer_def customResource_def sdkCall_def payload_def)

text \<open>
  C9.  When the database cluster's admin credential reference is undefined,
  \<^verbatim>\<open>createServerlessRDS\<close> throws a \<^verbatim>\<open>ReferenceError\<close>: only the parameter group and
  the cluster have been registered, and no initializer, hence no custom resource that
  could invoke the Action Target, has been created.
\<close>

theorem C9_missing_secret_fails_fast:
  assumes "cluster_secret (new_ServerlessCluster fw) = None"
  shows "fst (createServerlessRDS fw this v)
           = Inl (ReferenceError ''rdsAdminSecret is undefined'')
         \<and> map fst (children (snd (createServerlessRDS fw this v)))
             = map fst (children this) @ [''default'', ''Database'']
         \<and> initializers (children (snd (createServerlessRDS fw this v)))
             = initializers (children this)"
  using assms
  by (simp add: createServerlessRDS_def Let_def children_addChild initializers_append)

theorem C9_missing_secret_fails_fast_witness:
  "fst (createServerlessRDS
          \<lparr>new_ServerlessCluster = \<lparr>cluster_secret = None, clusterArn = ''arn:db''\<rparr>,
           new_Secret = \<lparr>secretName = ''app'', secretArn = ''arn:app''\<rparr>,
           fn_version = ''1''\<rparr>
          \<lparr>stack_of = \<lparr>stackName = ''S'', region = ''r'', account = ''1''\<rparr>,
           children = [], rdsServerlessCluster = None, rds_ingress = []\<rparr>
          ''vpc'')
     = Inl (ReferenceError ''rdsAdminSecret is undefined'')
   \<and> initializers (children (snd (createServerlessRDS
          \<lparr>new_ServerlessCluster = \<lparr>cluster_secret = None, clusterArn = ''arn:db''\<rparr>,
           new_Secret = \<lparr>secretName = ''app'', secretArn = ''arn:app''\<rparr>,
           fn_version = ''1''\<rparr>
          \<lparr>stack_of = \<lparr>stackName = ''S'', region = ''r'', account = ''1''\<rparr>,
           children = [], rdsServerlessCluster = None, rds_ingress = []\<rparr>
          ''vpc''))) = []"
  using C9_missing_secret_fails_fast
    [of "\<lparr>new_ServerlessCluster = \<lparr>cluster_secret = None, clusterArn = ''arn:db''\<rparr>,
           new_Secret = \<lparr>secretName = ''app'', secretArn = ''arn:app''\<rparr>,
           fn_version = ''1''\<rparr>"
        "\<lparr>stack_of = \<lparr>stackName = ''S'', region = ''r'', account = ''1''\<rparr>,
           children = [], rdsServerlessCluster = None, rds_ingress = []\<rparr>"
        "''vpc''"]
  by simp

section \<open>The invoking identity's grant\<close>

lemma wildcard_star_absorbs:
  "wildcard_match ps s \<Longrightarrow> wildcard_match (CHR ''*'' # ps) (xs @ s)"
proof (induction xs)
  case Nil
  then show ?case by (cases s) simp_all
next
  case (Cons x xs)
  then show ?case by simp
qed

lemma wildcard_literal_prefix:
  "wildcard_match ps s \<Longrightarrow> wildcard_match (pre @ ps) (pre @ s)"
proof (induction pre)
  case Nil
  then show ?case by simp
next
  case (Cons p pre)
  then have rest: "wildcard_match (pre @ ps) (pre @ s)" by simp
  show ?case
  proof (cases "p = CHR ''*''")
    case True
    from wildcard_star_absorbs [OF rest, of "[]"] show ?thesis
      using True by simp
  next
    case False
    with rest show ?thesis by simp
  qed
qed

lemma wildcard_covers:
  "wildcard_match (pre @ ''*'' @ suf) (pre @ name @ suf)"
proof -
  have "wildcard_match suf suf"
    using wildcard_literal_prefix [of "[]" "[]" suf] by simp
  then have "wildcard_match (''*'' @ suf) (name @ suf)"
    using wildcard_star_absorbs [of suf suf name] by simp
  then show ?thesis by (rule wildcard_literal_prefix)
qed

text \<open>
  C6, as the code has it.  The one statement attached to the invoking identity grants
  \<^verbatim>\<open>lambda:InvokeFunction\<close> on a pattern: the Action Target's ARN with the construct id
  replaced by \<open>*\<close>.  It covers the Action Target and every function of the stack's
  region and account whose name ends in \<open>-ResInit\<close> and the stack name; the custom
  resource's own policy is declared over any resource.
\<close>

theorem C6_invoker_grant_is_a_pattern:
  "statements (cr_role (this_customResource (new_CdkResourceInitializer stack cid version props)))
     = [\<lparr>actions = [''lambda:InvokeFunction''],
         resources = [functionArn stack (''*'' @ ''-ResInit'' @ stackName stack)]\<rparr>]
   \<and> functionName (this_function (new_CdkResourceInitializer stack cid version props))
       = cid @ ''-ResInit'' @ stackName stack
   \<and> wildcard_match (functionArn stack (''*'' @ ''-ResInit'' @ stackName stack))
         (functionArn stack (name @ ''-ResInit'' @ stackName stack))
   \<and> policy (this_customResource (new_CdkResourceInitializer stack cid version props)) = [''*'']"
proof -
  have "wildcard_match
          ((''arn:aws:lambda:'' @ region stack @ '':'' @ account stack @ '':function:'')
             @ ''*'' @ (''-ResInit'' @ stackName stack))
          ((''arn:aws:lambda:'' @ region stack @ '':'' @ account stack @ '':function:'')
             @ name @ (''-ResInit'' @ stackName stack))"
    by (rule wildcard_covers)
  then have m: "wildcard_match (functionArn stack (''*'' @ ''-ResInit'' @ stackName stack))
         (functionArn stack (name @ ''-ResInit'' @ stackName stack))"
    by (simp add: functionArn_def)
  show ?thesis
    using m
    by (simp add: new_CdkResourceInitializer_def customResource_def customResourceFnRole_def
        new_Role_def addToPolicy_def functionArn_def fn_def ANY_RESOURCE_def)
qed

text \<open>
  C6 as the specification states it fails: in stack \<open>S\<close> the grant's resource is not the ARN of the
  function \<open>Initializer-ResInitS\<close>, and it matches the ARN of another function,
  \<open>Other-ResInitS\<close>.
\<close>

theorem C6_counterexample:
  "resources (hd (statements (cr_role (this_customResource
      (new_CdkResourceInitializer
         \<lparr>stackName = ''S'', region = ''us-east-1'', account = ''123456789012''\<rparr>
         ''Initializer'' ''1''
         \<lparr>vpc = ''v'', policies = [],
          config = [(''credsSecretName'', ''a''), (''dbSecretName'', ''b'')]\<rparr>)))))
     = [''arn:aws:lambda:us-east-1:123456789012:function:*-ResInitS'']
   \<and> functionArn \<lparr>stackName = ''S'', region = ''us-east-1'', account = ''123456789012''\<rparr>
        (functionName (this_function
          (new_CdkResourceInitializer
             \<lparr>stackName = ''S'', region = ''us-east-1'', account = ''123456789012''\<rparr>
             ''Initializer'' ''1''
             \<lparr>vpc = ''v'', policies = [],
              config = [(''credsSecretName'', ''a''), (''dbSecretName'', ''b'')]\<rparr>)))
       = ''arn:aws:lambda:us-east-1:123456789012:function:Initializer-ResInitS''
   \<and> wildcard_match ''arn:aws:lambda:us-east-1:123456789012:function:*-ResInitS''
         ''arn:aws:lambda:us-east-1:123456789012:function:Other-ResInitS''"
  by (simp add: new_CdkResourceInitializer_def customResource_def customResourceFnRole_def
      new_Role_def addToPolicy_def functionArn_def fn_def)

section \<open>Fingerprint, Physical Identity and re-invocation\<close>

text \<open>
  C2, as the code has it.  Two configurations serialize to the same payload exactly when
  they have the same keys with the same values in the same order of construction, and
  then their fingerprints are equal.
\<close>

theorem C2_fingerprint_of_serialization:
  "(payload p1 = payload p2 \<longleftrightarrow> config p1 = config p2)
   \<and> (config p1 = config p2 \<longrightarrow> payloadHashPrefix p1 = payloadHashPrefix p2)"
proof -
  have "payloadHashPrefix p1 = payloadHashPrefix p2" if "config p1 = config p2"
  proof -
    from that have "payload p1 = payload p2" by (simp add: payload_inj)
    then show ?thesis by (simp add: payloadHashPrefix_def)
  qed
  then show ?thesis by (simp add: payload_inj)
qed

theorem C2_fingerprint_of_serialization_witness:
  "config \<lparr>vpc = ''v1'', policies = [],
           config = [(''credsSecretName'', ''a''), (''dbSecretName'', ''b'')]\<rparr>
     = config \<lparr>vpc = ''v2'', policies = [logPolicy],
           config = [(''credsSecretName'', ''a''), (''dbSecretName'', ''b'')]\<rparr>
   \<and> payloadHashPrefix \<lparr>vpc = ''v1'', policies = [],
           config = [(''credsSecretName'', ''a''), (''dbSecretName'', ''b'')]\<rparr>
     = payloadHashPrefix \<lparr>vpc = ''v2'', policies = [logPolicy],
           config = [(''credsSecretName'', ''a''), (''dbSecretName'', ''b'')]\<rparr>"
  using C2_fingerprint_of_serialization
    [of "\<lparr>vpc = ''v1'', policies = [],
           config = [(''credsSecretName'', ''a''), (''dbSecretName'', ''b'')]\<rparr>"
        "\<lparr>vpc = ''v2'', policies = [logPolicy],
           config = [(''credsSecretName'', ''a''), (''dbSecretName'', ''b'')]\<rparr>"]
  by simp

text \<open>
  C2 as the specification states it fails in both directions.  The payload
  \<open>{credsSecretName: a, dbSecretName: b}\<close> and the same payload with its keys written in
  the other order are structurally equal but have the fingerprints \<open>1d759c\<close> and
  \<open>445dc3\<close>: the serialization keeps the order of construction.  The payloads with
  \<open>dbSecretName\<close> \<open>b\<close> and \<open>ajxlaz\<close> are not equal but share the fingerprint
  \<open>1d759c\<close>: the fingerprint keeps 6 digits of the digest.
\<close>

theorem C2_counterexample:
  "map_of [(''credsSecretName'', ''a''), (''dbSecretName'', ''b'')]
     = map_of [(''dbSecretName'', ''b''), (''credsSecretName'', ''a'')]
   \<and> payloadHashPrefix \<lparr>vpc = [], policies = [],
         config = [(''credsSecretName'', ''a''), (''dbSecretName'', ''b'')]\<rparr>
       \<noteq> payloadHashPrefix \<lparr>vpc = [], policies = [],
         config = [(''dbSecretName'', ''b''), (''credsSecretName'', ''a'')]\<rparr>
   \<and> map_of [(''credsSecretName'', ''a''), (''dbSecretName'', ''b'')]
       \<noteq> map_of [(''credsSecretName'', ''a''), (''dbSecretName'', ''ajxlaz'')]
   \<and> payloadHashPrefix \<lparr>vpc = [], policies = [],
         config = [(''credsSecretName'', ''a''), (''dbSecretName'', ''b'')]\<rparr>
       = payloadHashPrefix \<lparr>vpc = [], policies = [],
         config = [(''credsSecretName'', ''a''), (''dbSecretName'', ''ajxlaz'')]\<rparr>"
proof -
  have same: "map_of [(''credsSecretName'', ''a''), (''dbSecretName'', ''b'')]
     = map_of [(''dbSecretName'', ''b''), (''credsSecretName'', ''a'')]"
    by (rule ext) simp
  have "map_of [(''credsSecretName'', ''a''), (''dbSecretName'', ''b'')] ''dbSecretName''
      \<noteq> map_of [(''credsSecretName'', ''a''), (''dbSecretName'', ''ajxlaz'')] ''dbSecretName''"
    by simp
  then have other: "map_of [(''credsSecretName'', ''a''), (''dbSecretName'', ''b'')]
       \<noteq> map_of [(''credsSecretName'', ''a''), (''dbSecretName'', ''ajxlaz'')]"
    by metis
  show ?thesis
    using same other by (simp only: fp_ab fp_ba fp_collision) simp
qed

text \<open>
  C3, as the code has it.  Two configurations whose fingerprints differ are different
  and serialize differently, their Physical Identities differ, and a pass over the new
  configuration from the trigger Applied at the old identity issues exactly one new
  invocation, with the new payload.
\<close>

theorem C3_change_detected_by_fingerprint:
  assumes "payloadHashPrefix p1 \<noteq> payloadHashPrefix p2"
      and "status s = Applied"
      and "recorded s = Some (physicalResourceId (sdkCall stack cid version p1))"
  shows "(config p1 \<noteq> config p2 \<and> payload p1 \<noteq> payload p2)
         \<and> physicalResourceId (sdkCall stack cid version p2)
            \<noteq> physicalResourceId (sdkCall stack cid version p1)
         \<and> invocations (convergence_pass target (customResource stack cid version p2) s)
            = invocations s @ [(cid @ ''-ResInit'' @ stackName stack, payload p2)]"
proof -
  from assms(1) have pl: "payload p1 \<noteq> payload p2"
    by (auto simp add: payloadHashPrefix_def)
  then have cf: "config p1 \<noteq> config p2"
    by (simp add: payload_inj)
  have ne: "physicalResourceId (sdkCall stack cid version p2)
              \<noteq> physicalResourceId (sdkCall stack cid version p1)"
    using assms(1) by (simp add: physicalResourceId_eq_iff)
  then have "recorded s \<noteq> Some (physicalResourceId (sdkCall stack cid version p2))"
    using assms(3) by simp
  with assms(2) have "convergence_pass target (customResource stack cid version p2) s
                        = invoke target (sdkCall stack cid version p2) s"
    by (intro pass_invokes) simp_all
  then show ?thesis
    using pl cf ne by (simp add: invocations_invoke sdkCall_parameters)
qed


theorem C3_change_detected_by_fingerprint_witness:
  "invocations
     (convergence_pass (\<lambda>f p. Inr [(''Payload'', ''done'')])
        (customResource \<lparr>stackName = ''S'', region = ''r'', account = ''1''\<rparr> ''Initializer'' ''1''
           \<lparr>vpc = [], policies = [],
            config = [(''credsSecretName'', ''a''), (''dbSecretName'', ''c'')]\<rparr>)
        \<lparr>status = Applied, recorded = Some ''Initializer-AwsSdkCall-11d759c'',
         invocation_result = Some [], invocations = [], surfaced = None\<rparr>)
   = [(''Initializer-ResInitS'',
       payload \<lparr>vpc = [], policies = [],
                config = [(''credsSecretName'', ''a''), (''dbSecretName'', ''c'')]\<rparr>)]"
proof -
  let ?p1 = "\<lparr>vpc = [], policies = [],
              config = [(''credsSecretName'', ''a''), (''dbSecretName'', ''b'')]\<rparr>"
  let ?p2 = "\<lparr>vpc = [], policies = [],
              config = [(''credsSecretName'', ''a''), (''dbSecretName'', ''c'')]\<rparr>"
  let ?stack = "\<lparr>stackName = ''S'', region = ''r'', account = ''1''\<rparr>"
  let ?s = "\<lparr>status = Applied, recorded = Some ''Initializer-AwsSdkCall-11d759c'',
             invocation_result = Some [], invocations = [], surfaced = None\<rparr>"
  have h1: "payloadHashPrefix ?p1 \<noteq> payloadHashPrefix ?p2"
    by (simp only: fp_ab fp_ac) simp
  have h2: "status ?s = Applied" by simp
  have h3: "recorded ?s = Some (physicalResourceId (sdkCall ?stack ''Initializer'' ''1'' ?p1))"
    by (simp add: physicalResourceId_sdkCall fp_ab)
  note w = C3_change_detected_by_fingerprint
             [where target = "\<lambda>f p. Inr [(''Payload'', ''done'')]", OF h1 h2 h3]
  from w have "invocations
     (convergence_pass (\<lambda>f p. Inr [(''Payload'', ''done'')])
        (customResource ?stack ''Initializer'' ''1'' ?p2) ?s)
     = invocations ?s @ [(''Initializer'' @ ''-ResInit'' @ stackName ?stack, payload ?p2)]"
    by (rule conjunct2 [THEN conjunct2])
  then show ?thesis by simp
qed

text \<open>
  C3 as the specification states it fails: changing \<open>dbSecretName\<close> from \<open>b\<close> to \<open>ajxlaz\<close> changes
  the configuration but neither the fingerprint nor the Physical Identity.
\<close>

theorem C3_counterexample:
  "config \<lparr>vpc = [], policies = [],
            config = [(''credsSecretName'', ''a''), (''dbSecretName'', ''b'')]\<rparr>
     \<noteq> config \<lparr>vpc = [], policies = [],
            config = [(''credsSecretName'', ''a''), (''dbSecretName'', ''ajxlaz'')]\<rparr>
   \<and> payloadHashPrefix \<lparr>vpc = [], policies = [],
            config = [(''credsSecretName'', ''a''), (''dbSecretName'', ''ajxlaz'')]\<rparr>
     = payloadHashPrefix \<lparr>vpc = [], policies = [],
            config = [(''credsSecretName'', ''a''), (''dbSecretName'', ''b'')]\<rparr>
   \<and> physicalResourceId (sdkCall \<lparr>stackName = ''S'', region = ''r'', account = ''1''\<rparr>
          ''Initializer'' ''1''
          \<lparr>vpc = [], policies = [],
           config = [(''credsSecretName'', ''a''), (''dbSecretName'', ''ajxlaz'')]\<rparr>)
     = physicalResourceId (sdkCall \<lparr>stackName = ''S'', region = ''r'', account = ''1''\<rparr>
          ''Initializer'' ''1''
          \<lparr>vpc = [], policies = [],
           config = [(''credsSecretName'', ''a''), (''dbSecretName'', ''b'')]\<rparr>)"
  by (simp add: physicalResourceId_sdkCall fp_ab fp_collision)

text \<open>
  C4.  The Physical Identity is the logical name, \<open>-AwsSdkCall-\<close>, the version and the
  fingerprint prefix, in that order.  For one logical name, two identities are equal
  exactly when the versions and the fingerprints are: the identity is the same across
  runs with these unchanged and differs when either differs.  So a pass with a bumped
  version over an unchanged configuration, from the trigger Applied at the old identity,
  invokes the Action Target again with the same payload.
\<close>

theorem C4_physical_identity:
  "physicalResourceId (sdkCall stack cid version props)
     = cid @ ''-AwsSdkCall-'' @ version @ payloadHashPrefix props
   \<and> (physicalResourceId (sdkCall stack1 cid v1 p1) = physicalResourceId (sdkCall stack2 cid v2 p2)
        \<longleftrightarrow> v1 = v2 \<and> payloadHashPrefix p1 = payloadHashPrefix p2)
   \<and> (status s = Applied
        \<and> recorded s = Some (physicalResourceId (sdkCall stack cid version props))
        \<and> bumped \<noteq> version
      \<longrightarrow> invocations (convergence_pass target (customResource stack cid bumped props) s)
            = invocations s @ [(cid @ ''-ResInit'' @ stackName stack, payload props)])"
proof -
  have "invocations (convergence_pass target (customResource stack cid bumped props) s)
          = invocations s @ [(cid @ ''-ResInit'' @ stackName stack, payload props)]"
    if "status s = Applied"
      and "recorded s = Some (physicalResourceId (sdkCall stack cid version props))"
      and "bumped \<noteq> version"
  proof -
    from that(2,3) have "recorded s \<noteq> Some (physicalResourceId (sdkCall stack cid bumped props))"
      by (simp add: physicalResourceId_eq_iff)
    with that(1) have "convergence_pass target (customResource stack cid bumped props) s
                         = invoke target (sdkCall stack cid bumped props) s"
      by (intro pass_invokes) simp_all
    then show ?thesis by (simp add: invocations_invoke sdkCall_parameters)
  qed
  then show ?thesis
    using physicalResourceId_sdkCall [of stack cid version props]
      physicalResourceId_eq_iff [of stack1 cid v1 p1 stack2 v2 p2]
    by blast
qed

theorem C4_physical_identity_witness:
  "invocations
     (convergence_pass (\<lambda>f p. Inr [(''Payload'', ''done'')])
        (customResource \<lparr>stackName = ''S'', region = ''r'', account = ''1''\<rparr> ''Initializer'' ''2''
           \<lparr>vpc = [], policies = [],
            config = [(''credsSecretName'', ''a''), (''dbSecretName'', ''b'')]\<rparr>)
        \<lparr>status = Applied, recorded = Some ''Initializer-AwsSdkCall-11d759c'',
         invocation_result = Some [], invocations = [], surfaced = None\<rparr>)
   = [(''Initializer-ResInitS'',
       payload \<lparr>vpc = [], policies = [],
                config = [(''credsSecretName'', ''a''), (''dbSecretName'', ''b'')]\<rparr>)]"
proof -
  let ?p = "\<lparr>vpc = [], policies = [],
             config = [(''credsSecretName'', ''a''), (''dbSecretName'', ''b'')]\<rparr>"
  let ?stack = "\<lparr>stackName = ''S'', region = ''r'', account = ''1''\<rparr>"
  let ?s = "\<lparr>status = Applied, recorded = Some ''Initializer-AwsSdkCall-11d759c'',
             invocation_result = Some [], invocations = [], surfaced = None\<rparr>"
  have h: "status ?s = Applied
           \<and> recorded ?s = Some (physicalResourceId (sdkCall ?stack ''Initializer'' ''1'' ?p))
           \<and> ''2'' \<noteq> ''1''"
    by (simp add: physicalResourceId_sdkCall fp_ab)
  note w = C4_physical_identity
             [where target = "\<lambda>f p. Inr [(''Payload'', ''done'')]" and s = ?s
                and stack = ?stack and cid = "''Initializer''" and version = "''1''"
                and bumped = "''2''" and props = ?p]
  from w h have "invocations
     (convergence_pass (\<lambda>f p. Inr [(''Payload'', ''done'')])
        (customResource ?stack ''Initializer'' ''2'' ?p) ?s)
     = invocations ?s @ [(''Initializer'' @ ''-ResInit'' @ stackName ?stack, payload ?p)]"
    by blast
  then show ?thesis by simp
qed

text \<open>
  C10.  The fingerprint prefix of every configuration is 6 characters, each a lowercase
  hexadecimal digit; so a Physical Identity splits in one way into version and
  fingerprint, and two identities of one logical name are equal only if the versions and
  the fingerprints are.
\<close>

theorem C10_fingerprint_shape:
  "length (payloadHashPrefix props) = 6
   \<and> set (payloadHashPrefix props) \<subseteq> set ''0123456789abcdef''
   \<and> (physicalResourceId (sdkCall stack cid v1 p1) = physicalResourceId (sdkCall stack cid v2 p2)
        \<longrightarrow> v1 = v2 \<and> payloadHashPrefix p1 = payloadHashPrefix p2)"
  using length_payloadHashPrefix [of props] set_payloadHashPrefix [of props]
    physicalResourceId_eq_iff [of stack cid v1 p1 stack v2 p2]
  by blast

theorem C10_fingerprint_shape_witness:
  "physicalResourceId (sdkCall \<lparr>stackName = ''S'', region = ''r'', account = ''1''\<rparr> ''Initializer'' ''1''
      \<lparr>vpc = ''v1'', policies = [],
       config = [(''credsSecretName'', ''a''), (''dbSecretName'', ''b'')]\<rparr>)
     = physicalResourceId (sdkCall \<lparr>stackName = ''S'', region = ''r'', account = ''1''\<rparr> ''Initializer'' ''1''
      \<lparr>vpc = ''v2'', policies = [logPolicy],
       config = [(''credsSecretName'', ''a''), (''dbSecretName'', ''b'')]\<rparr>)
   \<and> payloadHashPrefix \<lparr>vpc = ''v1'', policies = [],
       config = [(''credsSecretName'', ''a''), (''dbSecretName'', ''b'')]\<rparr>
     = payloadHashPrefix \<lparr>vpc = ''v2'', policies = [logPolicy],
       config = [(''credsSecretName'', ''a''), (''dbSecretName'', ''b'')]\<rparr>
   \<and> length (payloadHashPrefix \<lparr>vpc = ''v1'', policies = [],
       config = [(''credsSecretName'', ''a''), (''dbSecretName'', ''b'')]\<rparr>) = 6"
proof -
  let ?p1 = "\<lparr>vpc = ''v1'', policies = [],
       config = [(''credsSecretName'', ''a''), (''dbSecretName'', ''b'')]\<rparr>"
  let ?p2 = "\<lparr>vpc = ''v2'', policies = [logPolicy],
       config = [(''credsSecretName'', ''a''), (''dbSecretName'', ''b'')]\<rparr>"
  let ?stack = "\<lparr>stackName = ''S'', region = ''r'', account = ''1''\<rparr>"
  have h: "physicalResourceId (sdkCall ?stack ''Initializer'' ''1'' ?p1)
             = physicalResourceId (sdkCall ?stack ''Initializer'' ''1'' ?p2)"
    by (simp add: physicalResourceId_sdkCall payloadHashPrefix_def payload_def)
  from C10_fingerprint_shape [of ?p1 ?stack "''Initializer''" "''1''" ?p1 "''1''" ?p2] h
  show ?thesis by blast
qed

end
